theory Spec2Isabelle
  imports Main "HOL-Library.Word"
begin

section \<open>The TourBox decoder (tourbox\_client.cc) and its registry (tourbox\_server.cc)\<close>

text \<open>
  A connection decoder (\<open>TourBoxClientWrapper\<close>) works on two things outside itself:
  the server that accepted the connection, whose \<open>buttonStates\<close> it writes, and the
  emitter functions of the addon (\<open>EmitToNode\<close>, \<open>EmitRawData\<close>). The state of a decoder
  below holds that server and, as a log in program order, the calls the decoder has
  made on \<open>SetButtonHeld\<close>, \<open>EmitToNode\<close> and \<open>EmitRawData\<close>. The source has no such log;
  it is what lets the order of a registry write and an emission be stated.

  The decoder is only constructed in \<open>TourBoxServerWrapper::Run\<close>, with \<open>server = this\<close>, so
  its \<open>server\<close> pointer is never null: the \<open>if (server)\<close> guards of the source are always
  taken and the state holds the server itself. All output under \<open>if (DEBUG)\<close> is dead
  code (\<open>DEBUG = false\<close>) and is left out.
\<close>

type_synonym byte = "8 word"

subsection \<open>The registry of a server (tourbox\_server.h, tourbox\_server.cc lines 204--216)\<close>

text \<open>
  Of the server object only \<open>buttonStates\<close> is state a decoder or the host reads; the
  socket, the accept thread and the mutex are resources of the operating system.
\<close>

record TourBoxServerWrapper =
  buttonStates :: "int \<rightharpoonup> bool"

definition SetButtonHeld :: "int \<Rightarrow> bool \<Rightarrow> TourBoxServerWrapper \<Rightarrow> TourBoxServerWrapper" where
  "SetButtonHeld code held srv = srv\<lparr>buttonStates := (buttonStates srv)(code \<mapsto> held)\<rparr>"

definition IsButtonHeld :: "int \<Rightarrow> TourBoxServerWrapper \<Rightarrow> bool" where
  "IsButtonHeld code srv =
     (case buttonStates srv code of None \<Rightarrow> False | Some held \<Rightarrow> held)"

subsection \<open>What a decoder works on\<close>

datatype call =
    Call_SetButtonHeld int bool
  | Call_EmitToNode string int
  | Call_EmitRawData "byte list"

record world =
  server :: TourBoxServerWrapper
  calls :: "call list"

text \<open>\<open>server->SetButtonHeld(code, held)\<close> and \<open>server->IsButtonHeld(code)\<close> from the decoder.\<close>

definition server_SetButtonHeld :: "int \<Rightarrow> bool \<Rightarrow> world \<Rightarrow> world" where
  "server_SetButtonHeld code held w =
     w\<lparr>server := SetButtonHeld code held (server w),
       calls := calls w @ [Call_SetButtonHeld code held]\<rparr>"

definition server_IsButtonHeld :: "int \<Rightarrow> world \<Rightarrow> bool" where
  "server_IsButtonHeld code w = IsButtonHeld code (server w)"

text \<open>
  The emitters as the decoder sees them (declared in tourbox\_server.h): a call with its
  arguments. What the addon does with such a call is \<open>posted\<close> below.
\<close>

definition EmitToNode :: "string \<Rightarrow> int \<Rightarrow> world \<Rightarrow> world" where
  "EmitToNode eventName count w = w\<lparr>calls := calls w @ [Call_EmitToNode eventName count]\<rparr>"

definition EmitRawData :: "byte list \<Rightarrow> world \<Rightarrow> world" where
  "EmitRawData buffer w = w\<lparr>calls := calls w @ [Call_EmitRawData buffer]\<rparr>"

subsection \<open>The control table (tourbox\_client.h, tourbox\_client.cc lines 38--92)\<close>

record ControlAction =
  name :: string
  isPress :: bool
  releaseCode :: int
  action :: "(int \<Rightarrow> world \<Rightarrow> world) option"

text \<open>The constructor \<open>ControlAction(n, press, release, func)\<close>.\<close>

definition ControlAction :: "string \<Rightarrow> bool \<Rightarrow> int \<Rightarrow> (int \<Rightarrow> world \<Rightarrow> world) option \<Rightarrow> ControlAction" where
  "ControlAction n press release func =
     \<lparr>name = n, isPress = press, releaseCode = release, action = func\<rparr>"

text \<open>
  \<open>std::map<int, V>\<close> as an association list in ascending key order, which is the order a
  range-for visits it. Construction from an initializer list inserts the pairs one by
  one and keeps the first pair of a key.
\<close>

fun map_insert :: "int \<times> 'v \<Rightarrow> (int \<times> 'v) list \<Rightarrow> (int \<times> 'v) list" where
  "map_insert kv [] = [kv]"
| "map_insert kv (e # es) =
     (if fst kv < fst e then kv # e # es
      else if fst kv = fst e then e # es
      else e # map_insert kv es)"

definition map_from_list :: "(int \<times> 'v) list \<Rightarrow> (int \<times> 'v) list" where
  "map_from_list kvs = foldl (\<lambda>m kv. map_insert kv m) [] kvs"

definition initializeControlMap :: "(int \<times> ControlAction) list" where
  "initializeControlMap = map_from_list
    [(132, ControlAction ''Knob CCW'' False (- 1) (Some (\<lambda>count. EmitToNode ''Knob CCW'' count))),
     (196, ControlAction ''Knob CW'' False (- 1) (Some (\<lambda>count. EmitToNode ''Knob CW'' count))),
     (137, ControlAction ''Scroll Down'' False (- 1) (Some (\<lambda>count. EmitToNode ''Scroll Down'' count))),
     (201, ControlAction ''Scroll Up'' False (- 1) (Some (\<lambda>count. EmitToNode ''Scroll Up'' count))),
     (143, ControlAction ''Dial CCW'' False (- 1) (Some (\<lambda>count. EmitToNode ''Dial CCW'' count))),
     (207, ControlAction ''Dial CW'' False (- 1) (Some (\<lambda>count. EmitToNode ''Dial CW'' count))),
     (55, ControlAction ''Knob Press'' True 183 (Some (\<lambda>count. EmitToNode ''Knob Press'' count))),
     (183, ControlAction ''Knob Release'' False (- 1) (Some (\<lambda>count. EmitToNode ''Knob Release'' count))),
     (56, ControlAction ''Dial Press'' True 184 (Some (\<lambda>count. EmitToNode ''Dial Press'' count))),
     (184, ControlAction ''Dial Release'' False (- 1) (Some (\<lambda>count. EmitToNode ''Dial Release'' count))),
     (16, ControlAction ''Up Press'' True 144 (Some (\<lambda>count. EmitToNode ''Up Press'' count))),
     (144, ControlAction ''Up Release'' False (- 1) (Some (\<lambda>count. EmitToNode ''Up Release'' count))),
     (17, ControlAction ''Down Press'' True 145 (Some (\<lambda>count. EmitToNode ''Down Press'' count))),
     (145, ControlAction ''Down Release'' False (- 1) (Some (\<lambda>count. EmitToNode ''Down Release'' count))),
     (18, ControlAction ''Left Press'' True 146 (Some (\<lambda>count. EmitToNode ''Left Press'' count))),
     (146, ControlAction ''Left Release'' False (- 1) (Some (\<lambda>count. EmitToNode ''Left Release'' count))),
     (19, ControlAction ''Right Press'' True 147 (Some (\<lambda>count. EmitToNode ''Right Press'' count))),
     (147, ControlAction ''Right Release'' False (- 1) (Some (\<lambda>count. EmitToNode ''Right Release'' count))),
     (0, ControlAction ''Tall Press'' True 128 (Some (\<lambda>count. EmitToNode ''Tall Press'' count))),
     (128, ControlAction ''Tall Release'' False (- 1) (Some (\<lambda>count. EmitToNode ''Tall Release'' count))),
     (1, ControlAction ''Side Press'' True 129 (Some (\<lambda>count. EmitToNode ''Side Press'' count))),
     (129, ControlAction ''Side Release'' False (- 1) (Some (\<lambda>count. EmitToNode ''Side Release'' count))),
     (2, ControlAction ''Top Press'' True 130 (Some (\<lambda>count. EmitToNode ''Top Press'' count))),
     (130, ControlAction ''Top Release'' False (- 1) (Some (\<lambda>count. EmitToNode ''Top Release'' count))),
     (3, ControlAction ''Short Press'' True 131 (Some (\<lambda>count. EmitToNode ''Short Press'' count))),
     (131, ControlAction ''Short Release'' False (- 1) (Some (\<lambda>count. EmitToNode ''Short Release'' count))),
     (42, ControlAction ''Tour Press'' True 170 (Some (\<lambda>count. EmitToNode ''Tour Press'' count))),
     (170, ControlAction ''Tour Release'' False (- 1) (Some (\<lambda>count. EmitToNode ''Tour Release'' count))),
     (34, ControlAction ''C1 Press'' True 162 (Some (\<lambda>count. EmitToNode ''C1 Press'' count))),
     (162, ControlAction ''C1 Release'' False (- 1) (Some (\<lambda>count. EmitToNode ''C1 Release'' count))),
     (35, ControlAction ''C2 Press'' True 163 (Some (\<lambda>count. EmitToNode ''C2 Press'' count))),
     (163, ControlAction ''C2 Release'' False (- 1) (Some (\<lambda>count. EmitToNode ''C2 Release'' count))),
     (10, ControlAction ''Scroll Press'' True 138 (Some (\<lambda>count. EmitToNode ''Scroll Press'' count))),
     (138, ControlAction ''Scroll Release'' False (- 1) (Some (\<lambda>count. EmitToNode ''Scroll Release'' count)))]"

text \<open>The member \<open>controlMap\<close>, filled by the constructor and never changed afterwards.\<close>

definition controlMap :: "(int \<times> ControlAction) list" where
  "controlMap = initializeControlMap"

subsection \<open>Dispatch of one group (tourbox\_client.cc, lines 261--308)\<close>

text \<open>
  The loop of lines 285--292: the first press entry, in key order, whose release code is
  the value; \<open>-1\<close> when there is none.
\<close>

fun pressCodeToClear :: "(int \<times> ControlAction) list \<Rightarrow> int \<Rightarrow> int" where
  "pressCodeToClear [] releaseValue = - 1"
| "pressCodeToClear ((code, ca) # rest) releaseValue =
     (if isPress ca \<and> releaseCode ca = releaseValue then code
      else pressCodeToClear rest releaseValue)"

definition handleTourBoxInput :: "int \<Rightarrow> int \<Rightarrow> world \<Rightarrow> world" where
  "handleTourBoxInput value count w =
     (case map_of controlMap value of
        None \<Rightarrow> w
      | Some act \<Rightarrow>
          let w1 =
            (if isPress act then server_SetButtonHeld value True w
             else
               let p = pressCodeToClear controlMap value
               in if p \<noteq> - 1 \<and> server_IsButtonHeld p w then server_SetButtonHeld p False w else w)
          in (case action act of None \<Rightarrow> w1 | Some f \<Rightarrow> f count w1))"

subsection \<open>Hexadecimal text of a chunk (tourbox\_client.cc, lines 146--152)\<close>

text \<open>
  \<open>hexStream << std::hex << std::setw(2) << std::setfill('0') << (int)(unsigned char)buffer[i]\<close>:
  the value of the byte read as unsigned, in lower-case hexadecimal without leading
  zeros, padded with the fill character on the left up to the width.
\<close>

definition hexDigit :: "nat \<Rightarrow> char" where
  "hexDigit d = ''0123456789abcdef'' ! d"

fun hexNat :: "nat \<Rightarrow> string" where
  "hexNat n = (if n < 16 then [hexDigit n] else hexNat (n div 16) @ [hexDigit (n mod 16)])"

declare hexNat.simps [simp del]

definition setw_setfill :: "nat \<Rightarrow> char \<Rightarrow> string \<Rightarrow> string" where
  "setw_setfill width fill s = replicate (width - length s) fill @ s"

definition hexByte :: "byte \<Rightarrow> string" where
  "hexByte b = setw_setfill 2 (CHR ''0'') (hexNat (unat b))"

definition hexData_of :: "byte list \<Rightarrow> string" where
  "hexData_of buffer = concat (map hexByte buffer)"

subsection \<open>\<open>std::stoi(s, nullptr, 16)\<close>\<close>

text \<open>
  The conversion of the C library in base 16: leading white space is skipped, then an
  optional sign, then an optional \<open>0x\<close> or \<open>0X\<close> in front of a digit, then the longest
  run of hexadecimal digits. No digit at all raises \<open>std::invalid_argument\<close>; a value
  outside the range of \<open>int\<close> raises \<open>std::out_of_range\<close>.
\<close>

datatype stoi_error = invalid_argument | out_of_range

definition isspace :: "char \<Rightarrow> bool" where
  "isspace c = (c \<in> {CHR '' '', CHR 0x09, CHR 0x0A, CHR 0x0B, CHR 0x0C, CHR 0x0D})"

definition digitValue :: "char \<Rightarrow> nat option" where
  "digitValue c =
     (let n = (of_char c :: nat)
      in if 48 \<le> n \<and> n \<le> 57 then Some (n - 48)
         else if 97 \<le> n \<and> n \<le> 102 then Some (n - 87)
         else if 65 \<le> n \<and> n \<le> 70 then Some (n - 55)
         else None)"

definition skipSign :: "string \<Rightarrow> bool \<times> string" where
  "skipSign s =
     (case s of
        [] \<Rightarrow> (False, s)
      | c # r \<Rightarrow> if c = CHR ''-'' then (True, r) else if c = CHR ''+'' then (False, r) else (False, s))"

definition skipPrefix :: "string \<Rightarrow> string" where
  "skipPrefix s =
     (case s of
        z # x # d # r \<Rightarrow>
          if z = CHR ''0'' \<and> (x = CHR ''x'' \<or> x = CHR ''X'') \<and> digitValue d \<noteq> None
          then d # r else s
      | _ \<Rightarrow> s)"

definition stoi16 :: "string \<Rightarrow> stoi_error + int" where
  "stoi16 s =
     (let (negative, s1) = skipSign (dropWhile isspace s);
          digits = takeWhile (\<lambda>c. digitValue c \<noteq> None) (skipPrefix s1)
      in if digits = [] then Inl invalid_argument
         else
           let magnitude = foldl (\<lambda>acc c. 16 * acc + int (the (digitValue c))) 0 digits;
               v = (if negative then - magnitude else magnitude)
           in if v < - (2 ^ 31) \<or> 2 ^ 31 - 1 < v then Inl out_of_range else Inr v)"

subsection \<open>Parsing and grouping (tourbox\_client.cc, lines 177--249)\<close>

text \<open>
  Lines 185--194: the string is read two characters at a time; a last single character
  is skipped (\<open>i + 1 < hexData.length()\<close> fails for it). An exception of \<open>std::stoi\<close> leaves
  the loop at once.
\<close>

fun hexToBytes :: "string \<Rightarrow> stoi_error + int list" where
  "hexToBytes (a # b # rest) =
     (case stoi16 [a, b] of
        Inl e \<Rightarrow> Inl e
      | Inr v \<Rightarrow> (case hexToBytes rest of Inl e \<Rightarrow> Inl e | Inr bytes \<Rightarrow> Inr (v # bytes)))"
| "hexToBytes [a] = Inr []"
| "hexToBytes [] = Inr []"

text \<open>
  Lines 202--242: the loop over \<open>bytes[1..]\<close> with its two variables, and the call for
  the final group after it.
\<close>

fun groupLoop :: "int list \<Rightarrow> int \<Rightarrow> int \<Rightarrow> world \<Rightarrow> world" where
  "groupLoop [] currentValue count w = handleTourBoxInput currentValue count w"
| "groupLoop (b # bs) currentValue count w =
     (if b = currentValue then groupLoop bs currentValue (count + 1) w
      else groupLoop bs b 1 (handleTourBoxInput currentValue count w))"

text \<open>
  The \<open>catch\<close> of line 245 only ever sees an exception of \<open>std::stoi\<close>, raised before the
  first call of the handler, so the state it leaves is the state it was given.
\<close>

definition parseTourBoxData :: "string \<Rightarrow> world \<Rightarrow> world" where
  "parseTourBoxData hexData w =
     (case hexToBytes hexData of
        Inl e \<Rightarrow> w
      | Inr bytes \<Rightarrow>
          (case bytes of
             [] \<Rightarrow> w
           | b0 # rest \<Rightarrow> groupLoop rest b0 1 w))"

definition processData :: "byte list \<Rightarrow> world \<Rightarrow> world" where
  "processData buffer w = parseTourBoxData (hexData_of buffer) (EmitRawData buffer w)"

subsection \<open>The receive loop (tourbox\_client.cc, lines 100--123)\<close>

text \<open>
  What \<open>recv\<close> returns, one value per call: the bytes it stored (none when the peer has
  closed, at most 1023 otherwise) or an error. \<open>running\<close> is set by the constructor and
  only cleared by \<open>Stop\<close>, which nothing calls, so the loop ends with the first result
  that is not positive; a list that ends stands for a peer that stays silent.
\<close>

datatype recv_result = Recv "byte list" | Recv_failed

fun Run :: "recv_result list \<Rightarrow> world \<Rightarrow> world" where
  "Run [] w = w"
| "Run (Recv_failed # rest) w = w"
| "Run (Recv buffer # rest) w =
     (if int (length buffer) \<le> 0 then w else Run rest (processData buffer w))"

subsection \<open>Grouping as the specification words it\<close>

text \<open>
  A group is a maximal run of identical consecutive bytes of one chunk: the first byte
  together with every byte equal to it that follows directly, then the groups of
  what remains. The decoder is to handle the groups of a chunk one by one, in order.
\<close>

function runs :: "'a list \<Rightarrow> ('a \<times> nat) list" where
  "runs [] = []"
| "runs (x # xs) = (x, Suc (length (takeWhile (\<lambda>y. y = x) xs))) # runs (dropWhile (\<lambda>y. y = x) xs)"
  by pat_completeness auto
termination
  by (relation "measure length") (auto simp: length_dropWhile_le less_Suc_eq_le)

fun handleGroups :: "(int \<times> nat) list \<Rightarrow> world \<Rightarrow> world" where
  "handleGroups [] w = w"
| "handleGroups ((b, k) # gs) w = handleGroups gs (handleTourBoxInput b (int k) w)"

subsection \<open>The classes of controls as the specification words them\<close>

text \<open>
  The source has one flag and one code per entry. The specification reads three
  classes off them: a press holds a paired release code; a release is no press,
  holds no code of its own and is the release code of some press; a rotational
  control is no press, holds no code and is paired by nothing.
\<close>

datatype control_class = Rotational | Press | Release

definition pairedBy :: "(int \<times> ControlAction) list \<Rightarrow> int \<Rightarrow> bool" where
  "pairedBy table b = list_ex (\<lambda>(p, cp). isPress cp \<and> releaseCode cp = b) table"

definition classOf :: "int \<Rightarrow> ControlAction \<Rightarrow> control_class option" where
  "classOf b c =
     (if isPress c \<and> releaseCode c \<noteq> - 1 then Some Press
      else if \<not> isPress c \<and> releaseCode c = - 1 \<and> pairedBy controlMap b then Some Release
      else if \<not> isPress c \<and> releaseCode c = - 1 \<and> \<not> pairedBy controlMap b then Some Rotational
      else None)"

text \<open>A server that has decoded nothing yet, and a decoder attached to it.\<close>

definition newServer :: TourBoxServerWrapper where
  "newServer = \<lparr>buttonStates = Map.empty\<rparr>"

definition newWorld :: world where
  "newWorld = \<lparr>server = newServer, calls = []\<rparr>"

section \<open>The host surface (tourbox\_addon.cc)\<close>

subsection \<open>Values of the host\<close>

text \<open>
  The arguments of a host call are JavaScript values. A number is carried with the
  value \<open>Int32Value()\<close> gives for it, a string with the bytes \<open>Utf8Value()\<close> gives for it
  and a function with an identity. \<open>info[i]\<close> beyond the arguments passed is
  \<open>undefined\<close>. The text of an error message is not modelled.
\<close>

datatype js_value =
    JSUndefined
  | JSNull
  | JSBoolean bool
  | JSNumber int
  | JSString string
  | JSFunction nat
  | JSObject

datatype js_result = Throw_TypeError | Throw_Error | Return js_value

definition arg :: "js_value list \<Rightarrow> nat \<Rightarrow> js_value" where
  "arg info i = (if i < length info then info ! i else JSUndefined)"

fun IsNumber :: "js_value \<Rightarrow> bool" where
  "IsNumber (JSNumber n) = True"
| "IsNumber _ = False"

fun IsString :: "js_value \<Rightarrow> bool" where
  "IsString (JSString s) = True"
| "IsString _ = False"

fun IsFunction :: "js_value \<Rightarrow> bool" where
  "IsFunction (JSFunction f) = True"
| "IsFunction _ = False"

fun Int32Value :: "js_value \<Rightarrow> int" where
  "Int32Value (JSNumber n) = n"
| "Int32Value _ = 0"

fun Utf8Value :: "js_value \<Rightarrow> string" where
  "Utf8Value (JSString s) = s"
| "Utf8Value _ = []"

fun function_of :: "js_value \<Rightarrow> nat" where
  "function_of (JSFunction f) = f"
| "function_of _ = 0"

subsection \<open>Callback handles\<close>

text \<open>
  A \<open>Napi::ThreadSafeFunction\<close> handle of the N-API library: \<open>New\<close> makes a handle for a
  host function, held by one thread; \<open>Release\<close> gives that hold up and leaves the
  handle object as it is, so a released handle still tests as set. A default
  constructed handle is empty (\<open>None\<close> below).
\<close>

record ThreadSafeFunction =
  jsCallback :: nat
  released :: bool

definition ThreadSafeFunction_New :: "nat \<Rightarrow> ThreadSafeFunction" where
  "ThreadSafeFunction_New f = \<lparr>jsCallback = f, released = False\<rparr>"

definition ThreadSafeFunction_Release :: "ThreadSafeFunction \<Rightarrow> ThreadSafeFunction" where
  "ThreadSafeFunction_Release h = h\<lparr>released := True\<rparr>"

subsection \<open>The globals (tourbox\_addon.cc, lines 6--22)\<close>

text \<open>
  \<open>g_servers\<close> is a \<open>std::map\<close> from id to server, in ascending key order. It only ever
  receives the result of \<open>std::make_shared\<close>, so no entry is a null pointer.
  \<open>g_nextServerId\<close> is a C++ \<open>int\<close>; it is taken as unbounded, being incremented once
  per created server.
\<close>

record addon =
  g_servers :: "(int \<times> TourBoxServerWrapper) list"
  g_nextServerId :: int
  g_eventCallback :: "ThreadSafeFunction option"
  g_rawCallback :: "ThreadSafeFunction option"

definition addon_init :: addon where
  "addon_init = \<lparr>g_servers = [], g_nextServerId = 1, g_eventCallback = None, g_rawCallback = None\<rparr>"

definition g_nameToCode :: "(string \<times> int) list" where
  "g_nameToCode =
    [(''Knob CCW'', 132), (''Knob CW'', 196), (''Scroll Down'', 137), (''Scroll Up'', 201),
     (''Dial CCW'', 143), (''Dial CW'', 207), (''Knob Press'', 55), (''Knob Release'', 183),
     (''Dial Press'', 56), (''Dial Release'', 184), (''Up Press'', 16), (''Up Release'', 144),
     (''Down Press'', 17), (''Down Release'', 145), (''Left Press'', 18), (''Left Release'', 146),
     (''Right Press'', 19), (''Right Release'', 147), (''Tall Press'', 0), (''Tall Release'', 128),
     (''Side Press'', 1), (''Side Release'', 129), (''Top Press'', 2), (''Top Release'', 130),
     (''Short Press'', 3), (''Short Release'', 131), (''Tour Press'', 42), (''Tour Release'', 170),
     (''C1 Press'', 34), (''C1 Release'', 162), (''C2 Press'', 35), (''C2 Release'', 163),
     (''Scroll Press'', 10), (''Scroll Release'', 138)]"

text \<open>\<open>m[k] = v\<close> and \<open>m.erase(it)\<close> on a \<open>std::map\<close> with integer keys.\<close>

fun map_assign :: "int \<Rightarrow> 'v \<Rightarrow> (int \<times> 'v) list \<Rightarrow> (int \<times> 'v) list" where
  "map_assign k v [] = [(k, v)]"
| "map_assign k v (e # es) =
     (if k < fst e then (k, v) # e # es
      else if k = fst e then (k, v) # es
      else e # map_assign k v es)"

definition map_erase :: "int \<Rightarrow> (int \<times> 'v) list \<Rightarrow> (int \<times> 'v) list" where
  "map_erase k m = filter (\<lambda>e. fst e \<noteq> k) m"

subsection \<open>\<open>buttonState\<close> (tourbox\_addon.cc, lines 25--81)\<close>

text \<open>Lines 33--49: the two accepted shapes of the argument list.\<close>

definition buttonStateArgs :: "js_value list \<Rightarrow> (bool \<times> int \<times> string) option" where
  "buttonStateArgs info =
     (if length info = 1 \<and> IsString (arg info 0) then Some (True, - 1, Utf8Value (arg info 0))
      else if length info = 2 then
        (if IsNumber (arg info 0) \<and> IsString (arg info 1)
         then Some (False, Int32Value (arg info 0), Utf8Value (arg info 1))
         else None)
      else None)"

text \<open>
  Lines 51--59: the name is looked up as it is, then with \<open>" Press"\<close> appended.
  \<open>find\<close> on a \<open>std::map\<close> built from an initializer list is the first pair of the key.
\<close>

definition lookupCode :: "string \<Rightarrow> int option" where
  "lookupCode nm =
     (case map_of g_nameToCode nm of
        Some code \<Rightarrow> Some code
      | None \<Rightarrow> map_of g_nameToCode (nm @ '' Press''))"

text \<open>Lines 65--72: the loop over all servers.\<close>

fun anyServerHeld :: "(int \<times> TourBoxServerWrapper) list \<Rightarrow> int \<Rightarrow> bool" where
  "anyServerHeld [] code = False"
| "anyServerHeld (kv # rest) code =
     (if IsButtonHeld code (snd kv) then True else anyServerHeld rest code)"

definition ButtonState :: "js_value list \<Rightarrow> addon \<Rightarrow> js_result" where
  "ButtonState info g =
     (case buttonStateArgs info of
        None \<Rightarrow> Throw_TypeError
      | Some (checkAll, serverId, nm) \<Rightarrow>
          (case lookupCode nm of
             None \<Rightarrow> Return (JSBoolean False)
           | Some code \<Rightarrow>
               if checkAll then Return (JSBoolean (anyServerHeld (g_servers g) code))
               else
                 (case map_of (g_servers g) serverId of
                    None \<Rightarrow> Return (JSBoolean False)
                  | Some srv \<Rightarrow> Return (JSBoolean (IsButtonHeld code srv)))))"

subsection \<open>The emitters (tourbox\_addon.cc, lines 84--114)\<close>


subsection \<open>\<open>createServer\<close> (tourbox\_addon.cc, lines 137--211)\<close>

text \<open>
  What happens when the server is set up is decided outside the program: \<open>Initialize\<close>
  fails, \<open>StartServer\<close> fails (socket, bind or listen), an exception is thrown, or the
  server listens.
\<close>

datatype start_outcome = Initialize_failed | StartServer_failed | Exception_thrown | Listening

definition createServerArgsOk :: "js_value list \<Rightarrow> bool" where
  "createServerArgsOk info =
     (\<not> (length info < 2 \<or> \<not> IsNumber (arg info 0) \<or> \<not> IsFunction (arg info 1)))"

definition rawCallbackIndex :: "js_value list \<Rightarrow> nat" where
  "rawCallbackIndex info = (if length info \<ge> 3 \<and> IsString (arg info 2) then 3 else 2)"

definition CreateServer :: "js_value list \<Rightarrow> start_outcome \<Rightarrow> addon \<Rightarrow> addon \<times> js_result" where
  "CreateServer info outcome g =
     (if \<not> createServerArgsOk info then (g, Throw_TypeError)
      else
        let g1 = g\<lparr>g_eventCallback := Some (ThreadSafeFunction_New (function_of (arg info 1)))\<rparr>;
            g2 = (if length info > rawCallbackIndex info \<and> IsFunction (arg info (rawCallbackIndex info))
                  then g1\<lparr>g_rawCallback :=
                            Some (ThreadSafeFunction_New (function_of (arg info (rawCallbackIndex info))))\<rparr>
                  else g1)
        in (case outcome of
              Initialize_failed \<Rightarrow> (g2, Throw_Error)
            | StartServer_failed \<Rightarrow> (g2, Throw_Error)
            | Exception_thrown \<Rightarrow> (g2, Throw_Error)
            | Listening \<Rightarrow>
                let serverId = g_nextServerId g2
                in (g2\<lparr>g_nextServerId := serverId + 1,
                       g_servers := map_assign serverId newServer (g_servers g2)\<rparr>,
                    Return (JSNumber serverId))))"

subsection \<open>\<open>stopServer\<close> (tourbox\_addon.cc, lines 214--246)\<close>

text \<open>
  \<open>Stop()\<close> acts on the server object that is erased in the next line, and is taken to
  return (it joins the accept thread); of the globals it changes nothing.
\<close>

definition StopServer :: "js_value list \<Rightarrow> addon \<Rightarrow> addon \<times> js_result" where
  "StopServer info g =
     (if length info < 1 \<or> \<not> IsNumber (arg info 0) then (g, Throw_TypeError)
      else
        let serverId = Int32Value (arg info 0)
        in (case map_of (g_servers g) serverId of
              Some srv \<Rightarrow>
                (g\<lparr>g_servers := map_erase serverId (g_servers g),
                   g_eventCallback := map_option ThreadSafeFunction_Release (g_eventCallback g),
                   g_rawCallback := map_option ThreadSafeFunction_Release (g_rawCallback g)\<rparr>,
                 Return (JSBoolean True))
            | None \<Rightarrow> (g, Return (JSBoolean False))))"

subsection \<open>Histories of the globals\<close>

text \<open>
  Everything that changes or reads the globals: the three host calls, and a decoder of
  the listener \<open>serverId\<close> writing the registry of its server.
\<close>

datatype event =
    Host_createServer "js_value list" start_outcome
  | Host_stopServer "js_value list"
  | Host_buttonState "js_value list"
  | Decoder_SetButtonHeld int int bool

fun step :: "event \<Rightarrow> addon \<Rightarrow> addon" where
  "step (Host_createServer info outcome) g = fst (CreateServer info outcome g)"
| "step (Host_stopServer info) g = fst (StopServer info g)"
| "step (Host_buttonState info) g = g"
| "step (Decoder_SetButtonHeld serverId code held) g =
     g\<lparr>g_servers := map (\<lambda>(k, srv). (k, if k = serverId then SetButtonHeld code held srv else srv))
                          (g_servers g)\<rparr>"

fun run :: "event list \<Rightarrow> addon \<Rightarrow> addon" where
  "run [] g = g"
| "run (e # es) g = run es (step e g)"



section \<open>Properties\<close>

subsection \<open>The hexadecimal text of a chunk parses back to its bytes\<close>

lemma hexDigit_table:
  "list_all (\<lambda>d. digitValue (hexDigit d) = Some d \<and> \<not> isspace (hexDigit d)
       \<and> hexDigit d \<noteq> CHR ''-'' \<and> hexDigit d \<noteq> CHR ''+'') [0..<16]"
  by code_simp

lemma hexDigit_props:
  assumes "d < 16"
  shows "digitValue (hexDigit d) = Some d" and "\<not> isspace (hexDigit d)"
    and "hexDigit d \<noteq> CHR ''-''" and "hexDigit d \<noteq> CHR ''+''"
  using assms hexDigit_table by (simp_all add: list_all_iff)

lemma hexNat_small:
  "n < 256 \<Longrightarrow> setw_setfill 2 (CHR ''0'') (hexNat n) = [hexDigit (n div 16), hexDigit (n mod 16)]"
proof (cases "n < 16")
  case True
  then show ?thesis by (simp add: setw_setfill_def hexNat.simps [of n] hexDigit_def)
next
  case False
  assume "n < 256"
  with False have "n div 16 < 16" by simp
  with False show ?thesis
    by (simp add: setw_setfill_def hexNat.simps [of n] hexNat.simps [of "n div 16"])
qed

lemma stoi16_two_digits:
  assumes "a < 16" "b < 16"
  shows "stoi16 [hexDigit a, hexDigit b] = Inr (int (16 * a + b))"
  using assms
  by (simp add: stoi16_def skipSign_def skipPrefix_def hexDigit_props)

lemma unat_byte_less: "unat (b :: byte) < 256"
proof -
  have "unat b < 2 ^ LENGTH(8)" by (rule unsigned_less)
  then show ?thesis by simp
qed

lemma hexByte_digits: "hexByte b = [hexDigit (unat b div 16), hexDigit (unat b mod 16)]"
  by (simp add: hexByte_def hexNat_small unat_byte_less)

lemma stoi16_hexByte: "stoi16 (hexByte b) = Inr (uint b)"
proof -
  have "unat b < 256" by (rule unat_byte_less)
  then have "unat b div 16 < 16" by simp
  then have "stoi16 (hexByte b) = Inr (int (16 * (unat b div 16) + unat b mod 16))"
    by (simp add: hexByte_digits stoi16_two_digits)
  then show ?thesis by simp
qed

lemma hexData_of_Cons:
  "hexData_of (b # bs) = hexDigit (unat b div 16) # hexDigit (unat b mod 16) # hexData_of bs"
  by (simp add: hexData_of_def hexByte_digits)

lemma hexToBytes_hexData_of: "hexToBytes (hexData_of buffer) = Inr (map uint buffer)"
proof (induction buffer)
  case Nil
  show ?case by (simp add: hexData_of_def)
next
  case (Cons b bs)
  have "stoi16 [hexDigit (unat b div 16), hexDigit (unat b mod 16)] = Inr (uint b)"
    using stoi16_hexByte [of b] by (simp add: hexByte_digits)
  then show ?case using Cons.IH by (simp add: hexData_of_Cons)
qed

lemma length_hexData_of: "length (hexData_of buffer) = 2 * length buffer"
  by (induction buffer) (simp_all add: hexData_of_Cons, simp add: hexData_of_def)

lemma uint_byte_range: "0 \<le> uint (b :: byte) \<and> uint b \<le> 255"
proof -
  have "uint b < 2 ^ LENGTH(8)" by (rule unsigned_less)
  then show ?thesis by simp
qed

subsection \<open>The grouping loop handles the maximal runs\<close>

lemma groupLoop_runs:
  "groupLoop bs cur (int k) w =
     handleGroups ((cur, k + length (takeWhile (\<lambda>y. y = cur) bs)) # runs (dropWhile (\<lambda>y. y = cur) bs)) w"
proof (induction bs arbitrary: cur k w)
  case Nil
  show ?case by simp
next
  case (Cons b bs)
  show ?case
  proof (cases "b = cur")
    case True
    have "groupLoop (b # bs) cur (int k) w = groupLoop bs cur (int (Suc k)) w"
      using True by (simp add: add.commute)
    also have "\<dots> = handleGroups ((cur, Suc k + length (takeWhile (\<lambda>y. y = cur) bs))
        # runs (dropWhile (\<lambda>y. y = cur) bs)) w"
      by (rule Cons.IH)
    finally show ?thesis using True by simp
  next
    case False
    have "groupLoop (b # bs) cur (int k) w = groupLoop bs b (int 1) (handleTourBoxInput cur (int k) w)"
      using False by simp
    also have "\<dots> = handleGroups ((b, 1 + length (takeWhile (\<lambda>y. y = b) bs)) # runs (dropWhile (\<lambda>y. y = b) bs))
        (handleTourBoxInput cur (int k) w)"
      by (rule Cons.IH)
    finally show ?thesis using False by simp
  qed
qed

lemma parseTourBoxData_runs:
  "parseTourBoxData (hexData_of buffer) w = handleGroups (runs (map uint buffer)) w"
proof (cases buffer)
  case Nil
  then show ?thesis by (simp add: parseTourBoxData_def hexData_of_def)
next
  case (Cons b bs)
  have "parseTourBoxData (hexData_of buffer) w = groupLoop (map uint bs) (uint b) (int 1) w"
    using Cons by (simp add: parseTourBoxData_def hexToBytes_hexData_of)
  also have "\<dots> = handleGroups ((uint b, 1 + length (takeWhile (\<lambda>y. y = uint b) (map uint bs)))
      # runs (dropWhile (\<lambda>y. y = uint b) (map uint bs))) w"
    by (rule groupLoop_runs)
  finally show ?thesis using Cons by simp
qed

lemma processData_runs:
  "processData buffer w = handleGroups (runs (map uint buffer)) (EmitRawData buffer w)"
  by (simp add: processData_def parseTourBoxData_runs)

lemma runs_expand: "concat (map (\<lambda>(x, k). replicate k x) (runs xs)) = xs"
proof (induction xs rule: runs.induct)
  case 1
  show ?case by simp
next
  case (2 x xs)
  have "replicate (length (takeWhile (\<lambda>y. y = x) xs)) x = takeWhile (\<lambda>y. y = x) xs"
    by (induction xs) auto
  with 2 show ?case by simp
qed

lemma runs_positive: "\<forall>(x, k) \<in> set (runs xs). 0 < k"
  by (induction xs rule: runs.induct) auto

lemma runs_adjacent: "distinct_adj (map fst (runs xs))"
proof (induction xs rule: runs.induct)
  case 1
  show ?case by simp
next
  case (2 x xs)
  let ?r = "dropWhile (\<lambda>y. y = x) xs"
  show ?case
  proof (cases ?r)
    case Nil
    then show ?thesis by (simp del: dropWhile_eq_Nil_conv)
  next
    case (Cons y ys)
    then have "y \<noteq> x" using hd_dropWhile [of "\<lambda>y. y = x" xs] by auto
    with 2 Cons show ?thesis by (simp add: distinct_adj_Cons)
  qed
qed

lemma runs_replicate: "0 < k \<Longrightarrow> runs (replicate k x) = [(x, k)]"
  by (cases k) simp_all

subsection \<open>The control table, entry by entry\<close>

lemma controlMap_sorted:
  "controlMap =
    [(0, ControlAction ''Tall Press'' True 128 (Some (EmitToNode ''Tall Press''))),
     (1, ControlAction ''Side Press'' True 129 (Some (EmitToNode ''Side Press''))),
     (2, ControlAction ''Top Press'' True 130 (Some (EmitToNode ''Top Press''))),
     (3, ControlAction ''Short Press'' True 131 (Some (EmitToNode ''Short Press''))),
     (10, ControlAction ''Scroll Press'' True 138 (Some (EmitToNode ''Scroll Press''))),
     (16, ControlAction ''Up Press'' True 144 (Some (EmitToNode ''Up Press''))),
     (17, ControlAction ''Down Press'' True 145 (Some (EmitToNode ''Down Press''))),
     (18, ControlAction ''Left Press'' True 146 (Some (EmitToNode ''Left Press''))),
     (19, ControlAction ''Right Press'' True 147 (Some (EmitToNode ''Right Press''))),
     (34, ControlAction ''C1 Press'' True 162 (Some (EmitToNode ''C1 Press''))),
     (35, ControlAction ''C2 Press'' True 163 (Some (EmitToNode ''C2 Press''))),
     (42, ControlAction ''Tour Press'' True 170 (Some (EmitToNode ''Tour Press''))),
     (55, ControlAction ''Knob Press'' True 183 (Some (EmitToNode ''Knob Press''))),
     (56, ControlAction ''Dial Press'' True 184 (Some (EmitToNode ''Dial Press''))),
     (128, ControlAction ''Tall Release'' False (- 1) (Some (EmitToNode ''Tall Release''))),
     (129, ControlAction ''Side Release'' False (- 1) (Some (EmitToNode ''Side Release''))),
     (130, ControlAction ''Top Release'' False (- 1) (Some (EmitToNode ''Top Release''))),
     (131, ControlAction ''Short Release'' False (- 1) (Some (EmitToNode ''Short Release''))),
     (132, ControlAction ''Knob CCW'' False (- 1) (Some (EmitToNode ''Knob CCW''))),
     (137, ControlAction ''Scroll Down'' False (- 1) (Some (EmitToNode ''Scroll Down''))),
     (138, ControlAction ''Scroll Release'' False (- 1) (Some (EmitToNode ''Scroll Release''))),
     (143, ControlAction ''Dial CCW'' False (- 1) (Some (EmitToNode ''Dial CCW''))),
     (144, ControlAction ''Up Release'' False (- 1) (Some (EmitToNode ''Up Release''))),
     (145, ControlAction ''Down Release'' False (- 1) (Some (EmitToNode ''Down Release''))),
     (146, ControlAction ''Left Release'' False (- 1) (Some (EmitToNode ''Left Release''))),
     (147, ControlAction ''Right Release'' False (- 1) (Some (EmitToNode ''Right Release''))),
     (162, ControlAction ''C1 Release'' False (- 1) (Some (EmitToNode ''C1 Release''))),
     (163, ControlAction ''C2 Release'' False (- 1) (Some (EmitToNode ''C2 Release''))),
     (170, ControlAction ''Tour Release'' False (- 1) (Some (EmitToNode ''Tour Release''))),
     (183, ControlAction ''Knob Release'' False (- 1) (Some (EmitToNode ''Knob Release''))),
     (184, ControlAction ''Dial Release'' False (- 1) (Some (EmitToNode ''Dial Release''))),
     (196, ControlAction ''Knob CW'' False (- 1) (Some (EmitToNode ''Knob CW''))),
     (201, ControlAction ''Scroll Up'' False (- 1) (Some (EmitToNode ''Scroll Up''))),
     (207, ControlAction ''Dial CW'' False (- 1) (Some (EmitToNode ''Dial CW'')))]"
  by (simp add: controlMap_def initializeControlMap_def map_from_list_def)

lemma controlMap_keys:
  "map fst controlMap = [0, 1, 2, 3, 10, 16, 17, 18, 19, 34, 35, 42, 55, 56, 128, 129, 130, 131,
     132, 137, 138, 143, 144, 145, 146, 147, 162, 163, 170, 183, 184, 196, 201, 207]"
  by (simp add: controlMap_sorted)

lemma controlMap_distinct: "distinct (map fst controlMap)"
  by (simp add: controlMap_keys)

lemma controlMap_entry: "map_of controlMap b = Some c \<longleftrightarrow> (b, c) \<in> set controlMap"
  by (simp add: map_of_eq_Some_iff [OF controlMap_distinct])

lemma controlMap_actions:
  "list_all (\<lambda>(b, c). action c = Some (EmitToNode (name c))) controlMap"
  by (simp add: controlMap_sorted ControlAction_def)

lemma controlMap_press_found:
  "list_all (\<lambda>(p, cp). isPress cp \<longrightarrow> pressCodeToClear controlMap (releaseCode cp) = p) controlMap"
  by (simp add: controlMap_sorted ControlAction_def)

lemma controlMap_keys_range: "list_all (\<lambda>(b, c). 0 \<le> b \<and> b \<le> 255) controlMap"
  by (simp add: controlMap_sorted)

lemma controlMap_classes:
  "list_all (\<lambda>(b, c). classOf b c =
      (if b \<in> {132, 196, 137, 201, 143, 207} then Some Rotational
       else if b < 128 then Some Press else Some Release)) controlMap"
  by (simp add: classOf_def pairedBy_def controlMap_sorted ControlAction_def)

lemma controlMap_release_entries:
  "list_all (\<lambda>(p, cp). isPress cp \<longrightarrow>
      (case map_of controlMap (releaseCode cp) of None \<Rightarrow> False
       | Some r \<Rightarrow> \<not> isPress r \<and> classOf (releaseCode cp) r = Some Release)) controlMap"
  by (simp add: classOf_def pairedBy_def controlMap_sorted ControlAction_def)

lemma controlMap_own_code:
  "list_all (\<lambda>(b, c). releaseCode c \<noteq> b) controlMap"
  by (simp add: controlMap_sorted ControlAction_def)

lemma pressCodeToClear_sound:
  "pressCodeToClear m r \<noteq> - 1 \<Longrightarrow>
     \<exists>ca. (pressCodeToClear m r, ca) \<in> set m \<and> isPress ca \<and> releaseCode ca = r"
  by (induction m r rule: pressCodeToClear.induct) auto

lemma action_of_entry:
  "map_of controlMap b = Some c \<Longrightarrow> action c = Some (EmitToNode (name c))"
  using controlMap_actions by (auto simp: controlMap_entry list_all_iff)

lemma press_of_release:
  "map_of controlMap p = Some cp \<Longrightarrow> isPress cp \<Longrightarrow> pressCodeToClear controlMap (releaseCode cp) = p"
  using controlMap_press_found by (auto simp: controlMap_entry list_all_iff)

lemma key_not_minus_one: "map_of controlMap p = Some cp \<Longrightarrow> p \<noteq> - 1"
  using controlMap_keys_range by (auto simp: controlMap_entry list_all_iff)

subsection \<open>Single entries of the table, evaluated\<close>

lemma lookup_132: "map_of controlMap 132 = Some (ControlAction ''Knob CCW'' False (- 1) (Some (EmitToNode ''Knob CCW'')))"
  by (simp add: controlMap_sorted)

lemma handle_132: "handleTourBoxInput 132 k w = EmitToNode ''Knob CCW'' k w"
  by (simp add: handleTourBoxInput_def controlMap_sorted ControlAction_def)

lemma handle_196: "handleTourBoxInput 196 k w = EmitToNode ''Knob CW'' k w"
  by (simp add: handleTourBoxInput_def controlMap_sorted ControlAction_def)

lemma lookup_34:
  "map_of controlMap 34 = Some (ControlAction ''C1 Press'' True 162 (Some (EmitToNode ''C1 Press'')))"
  by (simp add: controlMap_sorted)

lemma lookup_162:
  "map_of controlMap 162 = Some (ControlAction ''C1 Release'' False (- 1) (Some (EmitToNode ''C1 Release'')))"
  by (simp add: controlMap_sorted)

lemma class_of_entry:
  assumes "map_of controlMap b = Some c"
  shows "classOf b c =
      (if b \<in> {132, 196, 137, 201, 143, 207} then Some Rotational
       else if b < 128 then Some Press else Some Release)"
proof -
  have "\<forall>x \<in> set controlMap. (\<lambda>(b, c). classOf b c =
      (if b \<in> {132, 196, 137, 201, 143, 207} then Some Rotational
       else if b < 128 then Some Press else Some Release)) x"
    using controlMap_classes by (simp only: list_all_iff)
  moreover have "(b, c) \<in> set controlMap" using assms by (simp add: controlMap_entry)
  ultimately have "(\<lambda>(b, c). classOf b c =
      (if b \<in> {132, 196, 137, 201, 143, 207} then Some Rotational
       else if b < 128 then Some Press else Some Release)) (b, c)"
    by (rule bspec)
  then show ?thesis by (simp only: prod.case)
qed

lemma hexData_example: "hexData_of [0, 10, 132, 255] = ''000a84ff''"
  by (simp add: hexData_of_def hexByte_digits hexDigit_def)

subsection \<open>The map of servers and the ids\<close>




















subsection \<open>Names of controls, evaluated\<close>

lemma lookup_C1: "map_of g_nameToCode ''C1'' = None \<and> map_of g_nameToCode ''C1 Press'' = Some 34"
  by (simp add: g_nameToCode_def)

lemma lookup_Nope:
  "map_of g_nameToCode ''Nope'' = None \<and> map_of g_nameToCode (''Nope'' @ '' Press'') = None"
  by (simp add: g_nameToCode_def)

lemma two_listeners:
  "run [Host_createServer [JSNumber 50500, JSFunction 1, JSString ''127.0.0.1'', JSFunction 7] Listening,
        Host_createServer [JSNumber 50501, JSFunction 2] Listening] addon_init =
     \<lparr>g_servers = [(1, newServer), (2, newServer)], g_nextServerId = 3,
      g_eventCallback = Some (ThreadSafeFunction_New 2),
      g_rawCallback = Some (ThreadSafeFunction_New 7)\<rparr>"
  by (simp add: CreateServer_def createServerArgsOk_def arg_def rawCallbackIndex_def
      addon_init_def Let_def)

subsection \<open>What \<open>createServer\<close> does to the handles\<close>






section \<open>The claims\<close>

text \<open>
  C1. For every received chunk the decoder handles exactly one group per maximal run
  of identical consecutive bytes of that chunk, in order, with the length of the run
  as count: processing the chunk is handling the groups \<open>runs\<close> gives for its bytes,
  after the raw-data call. \<open>runs\<close> gives the maximal runs: its groups spell the chunk
  out again, neighbouring groups differ in their byte, and no count is zero. So \<open>k\<close>
  copies of one byte in one chunk are one group with count \<open>k\<close>. Runs never merge
  across chunks: the receive loop groups each chunk on its own, and chunk \<open>[a, a]\<close>
  followed by chunk \<open>[a]\<close> is handled with counts 2 and then 1.
\<close>

theorem C1_one_group_per_run:
  "processData buffer w = handleGroups (runs (map uint buffer)) (EmitRawData buffer w)
   \<and> concat (map (\<lambda>(b, k). replicate k b) (runs (map uint buffer))) = map uint buffer
   \<and> distinct_adj (map fst (runs (map uint buffer)))
   \<and> (\<forall>(b, k) \<in> set (runs (map uint buffer)). 0 < k)
   \<and> (0 < k \<longrightarrow>
        processData (replicate k a) w =
          handleTourBoxInput (uint a) (int k) (EmitRawData (replicate k a) w))
   \<and> (buffer \<noteq> [] \<longrightarrow>
        Run (Recv buffer # rest) w =
          Run rest (handleGroups (runs (map uint buffer)) (EmitRawData buffer w)))
   \<and> Run [Recv [a, a], Recv [a]] w =
        handleTourBoxInput (uint a) 1
          (EmitRawData [a] (handleTourBoxInput (uint a) 2 (EmitRawData [a, a] w)))"
proof (intro conjI impI)
  show "processData buffer w = handleGroups (runs (map uint buffer)) (EmitRawData buffer w)"
    by (rule processData_runs)
  show "concat (map (\<lambda>(b, k). replicate k b) (runs (map uint buffer))) = map uint buffer"
    by (rule runs_expand)
  show "distinct_adj (map fst (runs (map uint buffer)))"
    by (rule runs_adjacent)
  show "\<forall>(b, k) \<in> set (runs (map uint buffer)). 0 < k"
    by (rule runs_positive)
  show "processData (replicate k a) w =
      handleTourBoxInput (uint a) (int k) (EmitRawData (replicate k a) w)" if "0 < k"
    using that by (simp add: processData_runs runs_replicate)
  show "Run (Recv buffer # rest) w =
      Run rest (handleGroups (runs (map uint buffer)) (EmitRawData buffer w))" if "buffer \<noteq> []"
    using that by (simp add: processData_runs)
  show "Run [Recv [a, a], Recv [a]] w =
      handleTourBoxInput (uint a) 1
        (EmitRawData [a] (handleTourBoxInput (uint a) 2 (EmitRawData [a, a] w)))"
    by (simp add: processData_runs)
qed

text \<open>
  For C1: the chunk \<open>[132, 132, 132, 196]\<close> on a fresh decoder, three copies of 132, and
  the two chunks \<open>[132, 132]\<close> and \<open>[132]\<close>.
\<close>

theorem C1_witness:
  "(0::nat) < 3 \<and> [132, 132, 132, 196 :: byte] \<noteq> []
   \<and> calls (processData [132, 132, 132, 196] newWorld) =
       [Call_EmitRawData [132, 132, 132, 196], Call_EmitToNode ''Knob CCW'' 3, Call_EmitToNode ''Knob CW'' 1]
   \<and> calls (processData (replicate 3 132) newWorld) =
       [Call_EmitRawData [132, 132, 132], Call_EmitToNode ''Knob CCW'' 3]
   \<and> calls (Run [Recv [132, 132], Recv [132]] newWorld) =
       [Call_EmitRawData [132, 132], Call_EmitToNode ''Knob CCW'' 2,
        Call_EmitRawData [132], Call_EmitToNode ''Knob CCW'' 1]"
  using C1_one_group_per_run [of "[132, 132, 132, 196]" newWorld 3 132 "[]"]
  by (simp add: handle_132 handle_196 EmitToNode_def EmitRawData_def newWorld_def numeral_3_eq_3)

text \<open>
  C2. For every group whose byte resolves to a press control, the decoder writes
  \<open>true\<close> to the registry entry of that byte and emits the name of the control with
  the count; the write comes before the emission in the log of calls, and the byte is
  held in the state the group leaves.
\<close>

theorem C2_press_sets_held_then_emits:
  assumes "map_of controlMap b = Some c" and "isPress c"
  shows "handleTourBoxInput b count w =
           w\<lparr>server := SetButtonHeld b True (server w),
             calls := calls w @ [Call_SetButtonHeld b True, Call_EmitToNode (name c) count]\<rparr>
         \<and> IsButtonHeld b (server (handleTourBoxInput b count w))"
  using assms action_of_entry [OF assms(1)]
  by (simp add: handleTourBoxInput_def server_SetButtonHeld_def SetButtonHeld_def EmitToNode_def
      IsButtonHeld_def)

text \<open>For C2: three presses of C1 (byte 34) on a fresh decoder.\<close>

theorem C2_witness:
  "map_of controlMap 34 = Some (ControlAction ''C1 Press'' True 162 (Some (EmitToNode ''C1 Press'')))
   \<and> isPress (ControlAction ''C1 Press'' True 162 (Some (EmitToNode ''C1 Press'')))
   \<and> handleTourBoxInput 34 3 newWorld =
       \<lparr>server = \<lparr>buttonStates = [34 \<mapsto> True]\<rparr>,
        calls = [Call_SetButtonHeld 34 True, Call_EmitToNode ''C1 Press'' 3]\<rparr>
   \<and> IsButtonHeld 34 (server (handleTourBoxInput 34 3 newWorld))"
proof -
  have p: "isPress (ControlAction ''C1 Press'' True 162 (Some (EmitToNode ''C1 Press'')))"
    by (simp add: ControlAction_def)
  show ?thesis
    using C2_press_sets_held_then_emits [OF lookup_34 p, of 3 newWorld] lookup_34 p
    by (simp add: ControlAction_def newWorld_def newServer_def SetButtonHeld_def IsButtonHeld_def)
qed

text \<open>
  C3. For every group whose byte resolves to a control that is no press (the release
  controls among them): when a press byte \<open>p\<close> has this byte as its release code and
  is held, the entry of \<open>p\<close> is written \<open>false\<close> and the name of the control is
  emitted once with the count; when no such press byte is held (none is paired, or
  its flag is clear) the name is emitted once with the count and the registry is
  not written at all.
\<close>

theorem C3_release_clears_held_and_emits:
  assumes "map_of controlMap b = Some c" and "\<not> isPress c"
  shows "(\<forall>p cp. map_of controlMap p = Some cp \<and> isPress cp \<and> releaseCode cp = b
              \<and> IsButtonHeld p (server w) \<longrightarrow>
            handleTourBoxInput b count w =
              w\<lparr>server := SetButtonHeld p False (server w),
                calls := calls w @ [Call_SetButtonHeld p False, Call_EmitToNode (name c) count]\<rparr>
            \<and> \<not> IsButtonHeld p (server (handleTourBoxInput b count w)))
       \<and> ((\<forall>p cp. map_of controlMap p = Some cp \<and> isPress cp \<and> releaseCode cp = b
              \<longrightarrow> \<not> IsButtonHeld p (server w)) \<longrightarrow>
            handleTourBoxInput b count w = w\<lparr>calls := calls w @ [Call_EmitToNode (name c) count]\<rparr>)"
proof (intro conjI allI impI)
  fix p cp
  assume h: "map_of controlMap p = Some cp \<and> isPress cp \<and> releaseCode cp = b
      \<and> IsButtonHeld p (server w)"
  then have "pressCodeToClear controlMap b = p" using press_of_release by blast
  moreover have "p \<noteq> - 1" using h key_not_minus_one by blast
  ultimately show eq: "handleTourBoxInput b count w =
      w\<lparr>server := SetButtonHeld p False (server w),
        calls := calls w @ [Call_SetButtonHeld p False, Call_EmitToNode (name c) count]\<rparr>"
    using assms h action_of_entry [OF assms(1)]
    by (simp add: handleTourBoxInput_def server_SetButtonHeld_def server_IsButtonHeld_def
        EmitToNode_def)
  show "\<not> IsButtonHeld p (server (handleTourBoxInput b count w))"
    by (simp add: eq IsButtonHeld_def SetButtonHeld_def)
next
  assume none: "\<forall>p cp. map_of controlMap p = Some cp \<and> isPress cp \<and> releaseCode cp = b
      \<longrightarrow> \<not> IsButtonHeld p (server w)"
  let ?p = "pressCodeToClear controlMap b"
  have "\<not> (?p \<noteq> - 1 \<and> server_IsButtonHeld ?p w)"
  proof
    assume a: "?p \<noteq> - 1 \<and> server_IsButtonHeld ?p w"
    then obtain ca where "(?p, ca) \<in> set controlMap" "isPress ca" "releaseCode ca = b"
      using pressCodeToClear_sound by blast
    then show False using none a by (auto simp: controlMap_entry server_IsButtonHeld_def)
  qed
  then show "handleTourBoxInput b count w = w\<lparr>calls := calls w @ [Call_EmitToNode (name c) count]\<rparr>"
    using assms action_of_entry [OF assms(1)]
    by (auto simp: handleTourBoxInput_def EmitToNode_def Let_def)
qed

text \<open>
  For C3: the release of C1 (byte 162) with count 2 after a press of C1, and the same
  release on a fresh decoder, where nothing is held.
\<close>

theorem C3_witness:
  "map_of controlMap 162 = Some (ControlAction ''C1 Release'' False (- 1) (Some (EmitToNode ''C1 Release'')))
   \<and> \<not> isPress (ControlAction ''C1 Release'' False (- 1) (Some (EmitToNode ''C1 Release'')))
   \<and> map_of controlMap 34 = Some (ControlAction ''C1 Press'' True 162 (Some (EmitToNode ''C1 Press'')))
   \<and> IsButtonHeld 34 (server (handleTourBoxInput 34 1 newWorld))
   \<and> handleTourBoxInput 162 2 (handleTourBoxInput 34 1 newWorld) =
       \<lparr>server = \<lparr>buttonStates = [34 \<mapsto> False]\<rparr>,
        calls = [Call_SetButtonHeld 34 True, Call_EmitToNode ''C1 Press'' 1,
                 Call_SetButtonHeld 34 False, Call_EmitToNode ''C1 Release'' 2]\<rparr>
   \<and> \<not> (\<exists>p cp. map_of controlMap p = Some cp \<and> isPress cp \<and> releaseCode cp = 162
         \<and> IsButtonHeld p (server newWorld))
   \<and> handleTourBoxInput 162 1 newWorld = \<lparr>server = newServer, calls = [Call_EmitToNode ''C1 Release'' 1]\<rparr>"
proof -
  let ?c = "ControlAction ''C1 Release'' False (- 1) (Some (EmitToNode ''C1 Release''))"
  let ?w = "handleTourBoxInput 34 1 newWorld"
  have np: "\<not> isPress ?c" by (simp add: ControlAction_def)
  have w: "?w = \<lparr>server = \<lparr>buttonStates = [34 \<mapsto> True]\<rparr>,
      calls = [Call_SetButtonHeld 34 True, Call_EmitToNode ''C1 Press'' 1]\<rparr>"
    by (simp add: handleTourBoxInput_def lookup_34 ControlAction_def server_SetButtonHeld_def
        SetButtonHeld_def EmitToNode_def newWorld_def newServer_def)
  have held: "IsButtonHeld 34 (server ?w)" by (simp add: w IsButtonHeld_def)
  have pr: "map_of controlMap 34 = Some (ControlAction ''C1 Press'' True 162 (Some (EmitToNode ''C1 Press'')))
      \<and> isPress (ControlAction ''C1 Press'' True 162 (Some (EmitToNode ''C1 Press'')))
      \<and> releaseCode (ControlAction ''C1 Press'' True 162 (Some (EmitToNode ''C1 Press''))) = 162
      \<and> IsButtonHeld 34 (server ?w)"
    using held by (simp add: lookup_34 ControlAction_def)
  have none: "\<forall>p cp. map_of controlMap p = Some cp \<and> isPress cp \<and> releaseCode cp = 162
      \<longrightarrow> \<not> IsButtonHeld p (server newWorld)"
    by (simp add: newWorld_def newServer_def IsButtonHeld_def)
  from C3_release_clears_held_and_emits [OF lookup_162 np, of ?w 2] pr
  have a: "handleTourBoxInput 162 2 ?w =
      ?w\<lparr>server := SetButtonHeld 34 False (server ?w),
        calls := calls ?w @ [Call_SetButtonHeld 34 False, Call_EmitToNode (name ?c) 2]\<rparr>"
    by blast
  from C3_release_clears_held_and_emits [OF lookup_162 np, of newWorld 1] none
  have b: "handleTourBoxInput 162 1 newWorld =
      newWorld\<lparr>calls := calls newWorld @ [Call_EmitToNode (name ?c) 1]\<rparr>"
    by blast
  have a': "handleTourBoxInput 162 2 ?w =
       \<lparr>server = \<lparr>buttonStates = [34 \<mapsto> False]\<rparr>,
        calls = [Call_SetButtonHeld 34 True, Call_EmitToNode ''C1 Press'' 1,
                 Call_SetButtonHeld 34 False, Call_EmitToNode ''C1 Release'' 2]\<rparr>"
    unfolding a by (simp add: w SetButtonHeld_def ControlAction_def)
  have b': "handleTourBoxInput 162 1 newWorld = \<lparr>server = newServer, calls = [Call_EmitToNode ''C1 Release'' 1]\<rparr>"
    unfolding b by (simp add: newWorld_def ControlAction_def)
  show ?thesis using lookup_162 np lookup_34 held a' b' none by blast
qed

text \<open>
  C4. The bytes 132, 196, 137, 201, 143 and 207 are the ones that resolve to a
  rotational control. For every group with such a byte the decoder emits the name of
  the control with the count and calls nothing else; the server, and with it every
  entry of the registry, is as before.
\<close>

theorem C4_rotational_leaves_registry:
  "(b \<in> {132, 196, 137, 201, 143, 207} \<longleftrightarrow>
      (\<exists>c. map_of controlMap b = Some c \<and> classOf b c = Some Rotational))
   \<and> (\<forall>c. map_of controlMap b = Some c \<and> classOf b c = Some Rotational \<longrightarrow>
         handleTourBoxInput b count w = w\<lparr>calls := calls w @ [Call_EmitToNode (name c) count]\<rparr>
         \<and> server (handleTourBoxInput b count w) = server w)"
proof (intro conjI allI impI iffI)
  assume in_set: "b \<in> {132, 196, 137, 201, 143, 207}"
  then obtain c where c: "map_of controlMap b = Some c"
    by (auto simp: controlMap_sorted)
  then have "classOf b c = Some Rotational"
    using in_set by (simp only: class_of_entry if_True)
  with c show "\<exists>c. map_of controlMap b = Some c \<and> classOf b c = Some Rotational" by blast
next
  assume "\<exists>c. map_of controlMap b = Some c \<and> classOf b c = Some Rotational"
  then obtain c where c: "map_of controlMap b = Some c" "classOf b c = Some Rotational"
    by blast
  show "b \<in> {132, 196, 137, 201, 143, 207}"
  proof (rule ccontr)
    assume "b \<notin> {132, 196, 137, 201, 143, 207}"
    then have "classOf b c = (if b < 128 then Some Press else Some Release)"
      by (simp only: class_of_entry [OF c(1)] if_False)
    with c(2) show False by (simp split: if_splits)
  qed
next
  fix c
  assume h: "map_of controlMap b = Some c \<and> classOf b c = Some Rotational"
  then have np: "\<not> isPress c" and unpaired: "\<not> pairedBy controlMap b"
    by (auto simp: classOf_def split: if_splits)
  have "pressCodeToClear controlMap b = - 1"
  proof (rule ccontr)
    assume "pressCodeToClear controlMap b \<noteq> - 1"
    then obtain ca where "(pressCodeToClear controlMap b, ca) \<in> set controlMap"
        "isPress ca" "releaseCode ca = b"
      using pressCodeToClear_sound by blast
    then have "pairedBy controlMap b"
      by (auto simp: pairedBy_def list_ex_iff)
    with unpaired show False by simp
  qed
  then show eq: "handleTourBoxInput b count w = w\<lparr>calls := calls w @ [Call_EmitToNode (name c) count]\<rparr>"
    using h np action_of_entry [of b c]
    by (simp add: handleTourBoxInput_def EmitToNode_def)
  show "server (handleTourBoxInput b count w) = server w"
    by (simp add: eq)
qed

text \<open>For C4: three ticks of the knob (byte 132) on a fresh decoder.\<close>

theorem C4_witness:
  "(132::int) \<in> {132, 196, 137, 201, 143, 207}
   \<and> map_of controlMap 132 = Some (ControlAction ''Knob CCW'' False (- 1) (Some (EmitToNode ''Knob CCW'')))
   \<and> classOf 132 (ControlAction ''Knob CCW'' False (- 1) (Some (EmitToNode ''Knob CCW''))) = Some Rotational
   \<and> handleTourBoxInput 132 3 newWorld = \<lparr>server = newServer, calls = [Call_EmitToNode ''Knob CCW'' 3]\<rparr>
   \<and> server (handleTourBoxInput 132 3 newWorld) = newServer"
proof -
  let ?c = "ControlAction ''Knob CCW'' False (- 1) (Some (EmitToNode ''Knob CCW''))"
  have cl: "classOf 132 ?c = Some Rotational"
    by (simp add: class_of_entry [OF lookup_132])
  from C4_rotational_leaves_registry [of 132 3 newWorld] lookup_132 cl
  have "handleTourBoxInput 132 3 newWorld = newWorld\<lparr>calls := calls newWorld @ [Call_EmitToNode (name ?c) 3]\<rparr>
      \<and> server (handleTourBoxInput 132 3 newWorld) = server newWorld"
    by blast
  then show ?thesis using lookup_132 cl
    by (simp add: newWorld_def ControlAction_def)
qed

text \<open>
  C5. For every group whose byte is not a key of the control table the handler
  returns the state it was given: nothing is emitted and the registry is unchanged.
\<close>

theorem C5_unknown_byte_dropped:
  assumes "b \<notin> fst ` set controlMap"
  shows "handleTourBoxInput b count w = w"
proof -
  have "map_of controlMap b = None"
    using assms by (simp add: map_of_eq_None_iff)
  then show ?thesis by (simp add: handleTourBoxInput_def)
qed

text \<open>For C5: byte 99 with count 4 on a fresh decoder.\<close>

theorem C5_witness:
  "(99::int) \<notin> fst ` set controlMap
   \<and> handleTourBoxInput 99 4 newWorld = newWorld
   \<and> calls (handleTourBoxInput 99 4 newWorld) = []
   \<and> server (handleTourBoxInput 99 4 newWorld) = newServer"
proof -
  have "fst ` set controlMap = set (map fst controlMap)" by simp
  then have a: "(99::int) \<notin> fst ` set controlMap"
    by (simp only: controlMap_keys) simp
  from C5_unknown_byte_dropped [OF a, of 4 newWorld] a show ?thesis
    by (simp add: newWorld_def)
qed

text \<open>
  C6. The control table built at initialization satisfies the invariants of the data
  model: every entry is of one of the three classes; for every press entry its
  release code is the byte of an entry that is no press and is of the release
  class; different press entries have different release codes; no entry has its own
  byte as release code. Besides, no byte is entered twice and all bytes are in
  \<open>[0, 255]\<close>.
\<close>

theorem C6_table_invariants:
  "(\<forall>(b, c) \<in> set controlMap. classOf b c \<in> {Some Rotational, Some Press, Some Release})
   \<and> (\<forall>(p, cp) \<in> set controlMap. isPress cp \<longrightarrow>
         (\<exists>r. map_of controlMap (releaseCode cp) = Some r \<and> \<not> isPress r
              \<and> classOf (releaseCode cp) r = Some Release))
   \<and> (\<forall>(p, cp) \<in> set controlMap. \<forall>(q, cq) \<in> set controlMap.
         isPress cp \<and> isPress cq \<and> p \<noteq> q \<longrightarrow> releaseCode cp \<noteq> releaseCode cq)
   \<and> (\<forall>(b, c) \<in> set controlMap. releaseCode c \<noteq> b)
   \<and> distinct (map fst controlMap)
   \<and> (\<forall>(b, c) \<in> set controlMap. 0 \<le> b \<and> b \<le> 255)"
proof (intro conjI)
  show "\<forall>(b, c) \<in> set controlMap. classOf b c \<in> {Some Rotational, Some Press, Some Release}"
  proof (rule ballI)
    fix x assume x: "x \<in> set controlMap"
    obtain b c where bc: "x = (b, c)" by (cases x)
    with x have "map_of controlMap b = Some c" by (simp add: controlMap_entry)
    then have "classOf b c \<in> {Some Rotational, Some Press, Some Release}"
      by (simp add: class_of_entry)
    then show "case x of (b, c) \<Rightarrow> classOf b c \<in> {Some Rotational, Some Press, Some Release}"
      by (simp add: bc)
  qed
  show "\<forall>(p, cp) \<in> set controlMap. isPress cp \<longrightarrow>
         (\<exists>r. map_of controlMap (releaseCode cp) = Some r \<and> \<not> isPress r
              \<and> classOf (releaseCode cp) r = Some Release)"
    using controlMap_release_entries
    by (auto simp: list_all_iff split: option.splits)
  show "\<forall>(p, cp) \<in> set controlMap. \<forall>(q, cq) \<in> set controlMap.
         isPress cp \<and> isPress cq \<and> p \<noteq> q \<longrightarrow> releaseCode cp \<noteq> releaseCode cq"
  proof (clarify)
    fix p cp q cq
    assume h: "(p, cp) \<in> set controlMap" "(q, cq) \<in> set controlMap" "isPress cp" "isPress cq"
      "releaseCode cp = releaseCode cq" "p \<noteq> q"
    have "pressCodeToClear controlMap (releaseCode cp) = p"
      using h(1,3) by (simp add: press_of_release controlMap_entry)
    moreover have "pressCodeToClear controlMap (releaseCode cq) = q"
      using h(2,4) by (simp add: press_of_release controlMap_entry)
    ultimately show False using h(5,6) by simp
  qed
  show "\<forall>(b, c) \<in> set controlMap. releaseCode c \<noteq> b"
    using controlMap_own_code by (simp add: list_all_iff)
  show "distinct (map fst controlMap)" by (rule controlMap_distinct)
  show "\<forall>(b, c) \<in> set controlMap. 0 \<le> b \<and> b \<le> 255"
    using controlMap_keys_range by (simp add: list_all_iff)
qed

text \<open>For C6: the entries of C1 (press 34, release 162) and of the C2 press (35, release 163).\<close>

theorem C6_witness:
  "(34, ControlAction ''C1 Press'' True 162 (Some (EmitToNode ''C1 Press''))) \<in> set controlMap
   \<and> isPress (ControlAction ''C1 Press'' True 162 (Some (EmitToNode ''C1 Press'')))
   \<and> classOf 34 (ControlAction ''C1 Press'' True 162 (Some (EmitToNode ''C1 Press''))) = Some Press
   \<and> (\<exists>r. map_of controlMap 162 = Some r \<and> \<not> isPress r \<and> classOf 162 r = Some Release)
   \<and> (35, ControlAction ''C2 Press'' True 163 (Some (EmitToNode ''C2 Press''))) \<in> set controlMap
   \<and> (162::int) \<noteq> 163 \<and> (162::int) \<noteq> 34"
proof -
  let ?c1 = "ControlAction ''C1 Press'' True 162 (Some (EmitToNode ''C1 Press''))"
  let ?c2 = "ControlAction ''C2 Press'' True 163 (Some (EmitToNode ''C2 Press''))"
  have m1: "(34, ?c1) \<in> set controlMap" using lookup_34 by (simp add: controlMap_entry)
  have m2: "(35, ?c2) \<in> set controlMap" by (simp add: controlMap_sorted)
  have p1: "isPress ?c1" and r1: "releaseCode ?c1 = 162" by (simp_all add: ControlAction_def)
  have cl: "classOf 34 ?c1 = Some Press" by (simp add: class_of_entry [OF lookup_34])
  from C6_table_invariants m1 p1
  have "\<exists>r. map_of controlMap (releaseCode ?c1) = Some r \<and> \<not> isPress r
      \<and> classOf (releaseCode ?c1) r = Some Release"
    by blast
  then show ?thesis using m1 m2 p1 cl by (simp add: r1)
qed

text \<open>
  C7. For every name queried through \<open>buttonState\<close>: a name found as it is in the
  name table resolves to its code; a name not found as it is resolves to what the name
  with \<open>" Press"\<close> appended resolves to, so \<open>"C1"\<close> resolves to the code 34 of
  \<open>"C1 Press"\<close>; the answer of both forms of the call is then the held state of the
  resolved code. A name that fails both lookups is answered \<open>false\<close>.
\<close>

theorem C7_name_fallback:
  "lookupCode ''C1'' = Some 34
   \<and> (map_of g_nameToCode n = Some code \<longrightarrow> lookupCode n = Some code)
   \<and> (map_of g_nameToCode n = None \<longrightarrow> lookupCode n = map_of g_nameToCode (n @ '' Press''))
   \<and> (lookupCode n = Some code \<longrightarrow>
        ButtonState [JSString n] g = Return (JSBoolean (anyServerHeld (g_servers g) code))
        \<and> ButtonState [JSNumber serverId, JSString n] g =
            Return (JSBoolean (case map_of (g_servers g) serverId of
                                 None \<Rightarrow> False
                               | Some srv \<Rightarrow> IsButtonHeld code srv)))
   \<and> (map_of g_nameToCode n = None \<and> map_of g_nameToCode (n @ '' Press'') = None \<longrightarrow>
        ButtonState [JSString n] g = Return (JSBoolean False)
        \<and> ButtonState [JSNumber serverId, JSString n] g = Return (JSBoolean False))"
proof (intro conjI impI)
  show "lookupCode ''C1'' = Some 34"
    using lookup_C1 by (simp add: lookupCode_def)
  show "lookupCode n = Some code" if "map_of g_nameToCode n = Some code"
    using that by (simp add: lookupCode_def)
  show "lookupCode n = map_of g_nameToCode (n @ '' Press'')" if "map_of g_nameToCode n = None"
    using that by (simp add: lookupCode_def)
  show "ButtonState [JSString n] g = Return (JSBoolean (anyServerHeld (g_servers g) code))"
    if "lookupCode n = Some code"
    using that by (simp add: ButtonState_def buttonStateArgs_def arg_def)
  show "ButtonState [JSNumber serverId, JSString n] g =
      Return (JSBoolean (case map_of (g_servers g) serverId of
                           None \<Rightarrow> False
                         | Some srv \<Rightarrow> IsButtonHeld code srv))"
    if "lookupCode n = Some code"
    using that by (simp add: ButtonState_def buttonStateArgs_def arg_def split: option.splits)
  assume none: "map_of g_nameToCode n = None \<and> map_of g_nameToCode (n @ '' Press'') = None"
  then have l: "lookupCode n = None" by (simp add: lookupCode_def)
  show "ButtonState [JSString n] g = Return (JSBoolean False)"
    by (simp add: ButtonState_def buttonStateArgs_def arg_def l)
  show "ButtonState [JSNumber serverId, JSString n] g = Return (JSBoolean False)"
    by (simp add: ButtonState_def buttonStateArgs_def arg_def l)
qed

text \<open>
  For C7: the short name \<open>C1\<close> and the unknown name \<open>Nope\<close>, queried while listener 1
  holds byte 34.
\<close>

theorem C7_witness:
  "map_of g_nameToCode ''C1'' = None
   \<and> map_of g_nameToCode (''C1'' @ '' Press'') = Some 34
   \<and> lookupCode ''C1'' = Some 34
   \<and> ButtonState [JSString ''C1'']
        \<lparr>g_servers = [(1, \<lparr>buttonStates = [34 \<mapsto> True]\<rparr>)], g_nextServerId = 2,
         g_eventCallback = None, g_rawCallback = None\<rparr> = Return (JSBoolean True)
   \<and> ButtonState [JSNumber 1, JSString ''C1'']
        \<lparr>g_servers = [(1, \<lparr>buttonStates = [34 \<mapsto> True]\<rparr>)], g_nextServerId = 2,
         g_eventCallback = None, g_rawCallback = None\<rparr> = Return (JSBoolean True)
   \<and> map_of g_nameToCode ''Nope'' = None
   \<and> map_of g_nameToCode (''Nope'' @ '' Press'') = None
   \<and> ButtonState [JSString ''Nope'']
        \<lparr>g_servers = [(1, \<lparr>buttonStates = [34 \<mapsto> True]\<rparr>)], g_nextServerId = 2,
         g_eventCallback = None, g_rawCallback = None\<rparr> = Return (JSBoolean False)"
proof -
  let ?g = "\<lparr>g_servers = [(1, \<lparr>buttonStates = [34 \<mapsto> True]\<rparr>)], g_nextServerId = 2,
         g_eventCallback = None, g_rawCallback = None\<rparr>"
  have l: "lookupCode ''C1'' = Some 34" using lookup_C1 by (simp add: lookupCode_def)
  have a: "ButtonState [JSString ''C1''] ?g = Return (JSBoolean (anyServerHeld (g_servers ?g) 34))
      \<and> ButtonState [JSNumber 1, JSString ''C1''] ?g =
            Return (JSBoolean (case map_of (g_servers ?g) 1 of
                                 None \<Rightarrow> False
                               | Some srv \<Rightarrow> IsButtonHeld 34 srv))"
    using C7_name_fallback [of "''C1''" 34 ?g 1] l by blast
  have b: "ButtonState [JSString ''Nope''] ?g = Return (JSBoolean False)"
    using C7_name_fallback [of "''Nope''" 0 ?g 1] lookup_Nope by blast
  show ?thesis
    using a b l lookup_C1 lookup_Nope by (simp add: IsButtonHeld_def)
qed






text \<open>
  C10. For every received chunk the hexadecimal text round-trips: the \<open>N\<close> bytes give
  \<open>2N\<close> characters, and reading these back two at a time gives the values of the
  bytes, each read as unsigned and so in \<open>[0, 255]\<close>, without an exception; hence the
  grouping loop of \<open>processData\<close> runs on exactly the bytes that arrived.
\<close>

theorem C10_hex_round_trip:
  "length (hexData_of buffer) = 2 * length buffer
   \<and> hexToBytes (hexData_of buffer) = Inr (map uint buffer)
   \<and> (\<forall>v \<in> set (map uint buffer). 0 \<le> v \<and> v \<le> 255)
   \<and> processData buffer w =
       (case map uint buffer of
          [] \<Rightarrow> EmitRawData buffer w
        | b0 # rest \<Rightarrow> groupLoop rest b0 1 (EmitRawData buffer w))"
proof (intro conjI)
  show "length (hexData_of buffer) = 2 * length buffer" by (rule length_hexData_of)
  show "hexToBytes (hexData_of buffer) = Inr (map uint buffer)" by (rule hexToBytes_hexData_of)
  show "\<forall>v \<in> set (map uint buffer). 0 \<le> v \<and> v \<le> 255"
    using uint_byte_range by auto
  show "processData buffer w =
       (case map uint buffer of
          [] \<Rightarrow> EmitRawData buffer w
        | b0 # rest \<Rightarrow> groupLoop rest b0 1 (EmitRawData buffer w))"
    by (simp add: processData_def parseTourBoxData_def hexToBytes_hexData_of)
qed

text \<open>For C10: the chunk \<open>[0, 10, 132, 255]\<close>, whose text is \<open>000a84ff\<close>.\<close>

theorem C10_witness:
  "hexData_of [0, 10, 132, 255] = ''000a84ff''
   \<and> length ''000a84ff'' = 2 * length [0, 10, 132, 255 :: byte]
   \<and> hexToBytes ''000a84ff'' = Inr [0, 10, 132, 255]
   \<and> list_all (\<lambda>v. 0 \<le> v \<and> v \<le> 255) [0, 10, 132, 255 :: int]"
  using C10_hex_round_trip [of "[0, 10, 132, 255]" newWorld]
  by (simp add: hexData_example)

end
